theory Spec2Isabelle
  imports Main
begin

section \<open>The cruise data-access layer (cruise/base.py)\<close>

text \<open>
  The class \<open>Cruise\<close> holds a backscatter dataset \<open>_data\<close>, an optional annotation
  dataset \<open>_annotations\<close> and an optional table of school boxes \<open>_school_box_df\<close>.
  An optional member that was not found on disk is \<open>None\<close>. The seabed dataset
  \<open>_bottom\<close> is read by no accessor below and is left out.

  A Python exception is a value \<open>Inl e\<close> of the result; a returned value is \<open>Inr v\<close>.
  \<open>FileNotFoundError\<close> is raised by \<open>categories\<close>; \<open>AttributeError\<close> is what
  Python raises when a method or column of \<open>None\<close> is accessed; \<open>KeyError\<close> is what
  a label selection raises for a label that is not in the coordinate.
\<close>

datatype error = FileNotFoundError | AttributeError | KeyError

text \<open>
  An argument annotated \<open>(int, list, None)\<close>: \<open>None\<close> is the \<open>None\<close> of the option
  type, an integer is \<open>Scalar k\<close>, a list is \<open>Labels ks\<close>.
\<close>

datatype selector = Scalar int | Labels "int list"

text \<open>One row of the school-box table, with the columns the code reads.\<close>

record school_box =
  startpingindex :: int
  endpingindex :: int
  upperdeptindex :: int
  lowerdeptindex :: int
  category :: int

text \<open>
  The backscatter dataset: the \<open>frequency\<close> coordinate, the sizes of the
  \<open>ping_time\<close> and \<open>range\<close> dimensions, and the variable \<open>sv\<close> read by position
  (frequency position, ping, range).
\<close>

record 'v sv_dataset =
  frequency :: "int list"
  sizes_ping_time :: nat
  sizes_range :: nat
  sv :: "nat \<Rightarrow> nat \<Rightarrow> nat \<Rightarrow> 'v"

text \<open>
  The annotation dataset: the \<open>category\<close> coordinate, its own dimension sizes, and the
  variable \<open>annotation\<close> read by position (category position, ping, range).
\<close>

record 'v annotation_dataset =
  category_values :: "int list"
  ann_sizes_ping_time :: nat
  ann_sizes_range :: nat
  annotation :: "nat \<Rightarrow> nat \<Rightarrow> nat \<Rightarrow> 'v"

record 'v cruise =
  data :: "'v sv_dataset"
  annotations :: "'v annotation_dataset option"
  school_box_df :: "school_box list option"

definition frequencies :: "'v cruise \<Rightarrow> int list" where
  "frequencies c = frequency (data c)"

definition num_pings :: "'v cruise \<Rightarrow> int" where
  "num_pings c = int (sizes_ping_time (data c))"

definition num_ranges :: "'v cruise \<Rightarrow> int" where
  "num_ranges c = int (sizes_range (data c))"

definition annotations_available :: "'v cruise \<Rightarrow> bool" where
  "annotations_available c = (annotations c \<noteq> None)"

definition school_boxes_available :: "'v cruise \<Rightarrow> bool" where
  "school_boxes_available c = (school_box_df c \<noteq> None)"

text \<open>
  \<open>categories\<close>: raises when the annotations are absent, otherwise
  \<open>sorted([cat for cat in categories if cat != -1])\<close>.
\<close>

definition categories :: "'v cruise \<Rightarrow> error + int list" where
  "categories c =
     (case annotations c of
        None \<Rightarrow> Inl FileNotFoundError
      | Some a \<Rightarrow> Inr (sort (filter (\<lambda>cat. cat \<noteq> - 1) (category_values a))))"

subsection \<open>Positional and label selection\<close>

text \<open>
  \<open>isel(dim=slice(start, stop))\<close> follows Python's slice rules on a dimension of
  size \<open>n\<close>: a missing bound is the end of the dimension, a negative bound counts from
  the end, and every bound is clamped to \<open>[0, n]\<close>.
\<close>

definition slice_bound :: "int option \<Rightarrow> nat \<Rightarrow> nat \<Rightarrow> nat" where
  "slice_bound b dflt n =
     (case b of
        None \<Rightarrow> dflt
      | Some i \<Rightarrow> if i < 0 then nat (max (i + int n) 0) else min (nat i) n)"

definition isel_slice :: "int option \<Rightarrow> int option \<Rightarrow> nat \<Rightarrow> nat list" where
  "isel_slice start stop n = [slice_bound start 0 n ..< slice_bound stop n n]"

text \<open>
  \<open>sel(coord=labels)\<close> looks every label up in the coordinate and raises
  \<open>KeyError\<close> for a label that is not there. A coordinate holds each label once, so the
  position of a label is the first one that carries it.
\<close>

fun get_loc :: "int list \<Rightarrow> int \<Rightarrow> nat option" where
  "get_loc [] l = None"
| "get_loc (x # xs) l = (if x = l then Some 0 else map_option Suc (get_loc xs l))"

fun sel_labels :: "int list \<Rightarrow> int list \<Rightarrow> error + nat list" where
  "sel_labels coord [] = Inr []"
| "sel_labels coord (l # ls) =
     (case get_loc coord l of
        None \<Rightarrow> Inl KeyError
      | Some i \<Rightarrow>
          (case sel_labels coord ls of
             Inl e \<Rightarrow> Inl e
           | Inr ps \<Rightarrow> Inr (i # ps)))"

definition sel :: "int list \<Rightarrow> selector \<Rightarrow> error + nat list" where
  "sel coord s =
     (case s of
        Scalar l \<Rightarrow> sel_labels coord [l]
      | Labels ls \<Rightarrow> sel_labels coord ls)"

text \<open>
  The array a slice returns: whether the first dimension was dropped by a scalar
  selection, the positions selected along each dimension, and the values read, by
  (first axis, ping, range).
\<close>

record 'v data_array =
  scalar_sel :: bool
  first_pos :: "nat list"
  ping_pos :: "nat list"
  range_pos :: "nat list"
  da_values :: "'v list list list"

definition is_scalar :: "selector \<Rightarrow> bool" where
  "is_scalar s = (case s of Scalar l \<Rightarrow> True | Labels ls \<Rightarrow> False)"

definition read_array ::
  "(nat \<Rightarrow> nat \<Rightarrow> nat \<Rightarrow> 'v) \<Rightarrow> bool \<Rightarrow> nat list \<Rightarrow> nat list \<Rightarrow> nat list \<Rightarrow> 'v data_array" where
  "read_array var sc fs ps rs =
     \<lparr>scalar_sel = sc, first_pos = fs, ping_pos = ps, range_pos = rs,
      da_values = map (\<lambda>f. map (\<lambda>p. map (\<lambda>r. var f p r) rs) ps) fs\<rparr>"

subsection \<open>The slices\<close>

definition get_sv_slice ::
  "'v cruise \<Rightarrow> int option \<Rightarrow> int option \<Rightarrow> int option \<Rightarrow> int option \<Rightarrow> selector option
     \<Rightarrow> error + 'v data_array" where
  "get_sv_slice c start_ping end_ping start_range end_range freqs =
     (let start_range' = (case start_range of None \<Rightarrow> 0 | Some s \<Rightarrow> s);
          end_range' = (case end_range of None \<Rightarrow> num_ranges c + 1 | Some e \<Rightarrow> e);
          freqs' = (case freqs of None \<Rightarrow> Labels (frequencies c) | Some s \<Rightarrow> s)
      in case sel (frequency (data c)) freqs' of
           Inl e \<Rightarrow> Inl e
         | Inr fs \<Rightarrow>
             Inr (read_array (sv (data c)) (is_scalar freqs') fs
                    (isel_slice start_ping end_ping (sizes_ping_time (data c)))
                    (isel_slice (Some start_range') (Some end_range') (sizes_range (data c)))))"

definition get_annotation_slice ::
  "'v cruise \<Rightarrow> int option \<Rightarrow> int option \<Rightarrow> int option \<Rightarrow> int option \<Rightarrow> selector option
     \<Rightarrow> error + 'v data_array" where
  "get_annotation_slice c start_ping end_ping start_range end_range cats =
     (let start_range' = (case start_range of None \<Rightarrow> 0 | Some s \<Rightarrow> s);
          end_range' = (case end_range of None \<Rightarrow> num_ranges c | Some e \<Rightarrow> e)
      in case (case cats of None \<Rightarrow> map_sum id Labels (categories c) | Some s \<Rightarrow> Inr s) of
           Inl e \<Rightarrow> Inl e
         | Inr cats' \<Rightarrow>
             (case annotations c of
                None \<Rightarrow> Inl AttributeError
              | Some a \<Rightarrow>
                  (case sel (category_values a) cats' of
                     Inl e \<Rightarrow> Inl e
                   | Inr cs \<Rightarrow>
                       Inr (read_array (annotation a) (is_scalar cats') cs
                              (isel_slice start_ping end_ping (ann_sizes_ping_time a))
                              (isel_slice (Some start_range') (Some end_range') (ann_sizes_range a))))))"

subsection \<open>The school-box query\<close>

text \<open>
  \<open>df.loc[mask]\<close> keeps the rows of the table where the mask holds, in table order.
  On \<open>df = None\<close> building the mask already raises \<open>AttributeError\<close>.
\<close>

definition loc :: "school_box list option \<Rightarrow> (school_box \<Rightarrow> bool) \<Rightarrow> error + school_box list" where
  "loc df keep =
     (case df of
        None \<Rightarrow> Inl AttributeError
      | Some rows \<Rightarrow> Inr (filter keep rows))"

text \<open>One statement \<open>if bound is not None: df = df.loc[mask(bound)]\<close>.\<close>

definition loc_if ::
  "int option \<Rightarrow> (int \<Rightarrow> school_box \<Rightarrow> bool) \<Rightarrow> school_box list option
     \<Rightarrow> error + school_box list option" where
  "loc_if bound keep df =
     (case bound of
        None \<Rightarrow> Inr df
      | Some v \<Rightarrow> map_sum id Some (loc df (keep v)))"

definition get_school_boxes ::
  "'v cruise \<Rightarrow> int option \<Rightarrow> int option \<Rightarrow> int option \<Rightarrow> int option \<Rightarrow> selector option
     \<Rightarrow> error + school_box list" where
  "get_school_boxes c start_ping end_ping start_range end_range cats =
     (case loc_if start_ping (\<lambda>v b. endpingindex b \<ge> v) (school_box_df c) of
        Inl e \<Rightarrow> Inl e
      | Inr df1 \<Rightarrow>
     (case loc_if end_ping (\<lambda>v b. startpingindex b < v) df1 of
        Inl e \<Rightarrow> Inl e
      | Inr df2 \<Rightarrow>
     (case loc_if start_range (\<lambda>v b. lowerdeptindex b \<ge> v) df2 of
        Inl e \<Rightarrow> Inl e
      | Inr df3 \<Rightarrow>
     (case loc_if end_range (\<lambda>v b. upperdeptindex b < v) df3 of
        Inl e \<Rightarrow> Inl e
      | Inr df4 \<Rightarrow>
     (case (case cats of None \<Rightarrow> map_sum id Labels (categories c) | Some s \<Rightarrow> Inr s) of
        Inl e \<Rightarrow> Inl e
      | Inr cats' \<Rightarrow>
          (let cats'' = (case cats' of Scalar k \<Rightarrow> [k] | Labels ks \<Rightarrow> ks)
           in loc df4 (\<lambda>b. category b \<in> set cats'')))))))"

subsection \<open>The window of a school-box query\<close>

text \<open>
  The four masks of \<open>get_school_boxes\<close> taken together: a bound that is \<open>None\<close>
  filters nothing.
\<close>

definition in_window ::
  "int option \<Rightarrow> int option \<Rightarrow> int option \<Rightarrow> int option \<Rightarrow> school_box \<Rightarrow> bool" where
  "in_window start_ping end_ping start_range end_range b =
     ((case start_ping of None \<Rightarrow> True | Some v \<Rightarrow> endpingindex b \<ge> v) \<and>
      (case end_ping of None \<Rightarrow> True | Some v \<Rightarrow> startpingindex b < v) \<and>
      (case start_range of None \<Rightarrow> True | Some v \<Rightarrow> lowerdeptindex b \<ge> v) \<and>
      (case end_range of None \<Rightarrow> True | Some v \<Rightarrow> upperdeptindex b < v))"

text \<open>
  The predicate as the specification words it, strict on all four sides; it is compared
  with the code's masks below.
\<close>

definition spec_box_predicate :: "int \<Rightarrow> int \<Rightarrow> int \<Rightarrow> int \<Rightarrow> school_box \<Rightarrow> bool" where
  "spec_box_predicate start_ping end_ping start_range end_range row =
     (endpingindex row > start_ping \<and> startpingindex row < end_ping \<and>
      lowerdeptindex row > start_range \<and> upperdeptindex row < end_range)"

section \<open>Patch cropping\<close>

text \<open>
  Modelled from the spec: the errors of \<open>crop_data\<close>. The module utils/cropping.py is
  not among the sources; the specification names one error of \<open>crop_data\<close>, a requested
  frequency that the survey does not have.
\<close>

datatype crop_error = UnknownFrequency

text \<open>
  Modelled from the spec: the copy of one row of the read sub-rectangle into a row of the
  output that is pre-filled with the boundary value, at offset \<open>pad_left\<close> (utils/cropping.py
  is not among the sources).
\<close>

definition pad_row :: "'v \<Rightarrow> nat \<Rightarrow> nat \<Rightarrow> 'v list \<Rightarrow> 'v list" where
  "pad_row boundary_val width pad_left row =
     replicate pad_left boundary_val @ row @ replicate (width - pad_left - length row) boundary_val"

text \<open>
  Modelled from the spec: the copy of one plane of the read sub-rectangle into a plane of
  the output that is pre-filled with the boundary value, at offset
  (\<open>pad_top\<close>, \<open>pad_left\<close>) (utils/cropping.py is not among the sources).
\<close>

definition pad_plane :: "'v \<Rightarrow> nat \<Rightarrow> nat \<Rightarrow> nat \<Rightarrow> nat \<Rightarrow> 'v list list \<Rightarrow> 'v list list" where
  "pad_plane boundary_val height width pad_top pad_left plane =
     replicate pad_top (replicate width boundary_val) @
     map (pad_row boundary_val width pad_left) plane @
     replicate (height - pad_top - length plane) (replicate width boundary_val)"

text \<open>
  Modelled from the spec: \<open>crop_data(survey, center, patch_size, frequencies, boundary_val)\<close>
  of utils/cropping.py, which is not among the sources. In the words of the specification:
  the window is \<open>[center_ping - height//2, center_ping + height//2)\<close> by
  \<open>[center_range - width//2, center_range + width//2)\<close>; the frequencies are all of
  them, a single one or a list, and must be frequencies of the survey or the call fails with
  \<open>UnknownFrequency\<close>; the intersection of the window with
  \<open>[0, num_pings) \<times> [0, num_ranges)\<close> is computed, only that sub-rectangle is read
  (through \<open>get_sv_slice\<close>), and it is copied at its offset into an output of shape
  (frequencies, height, width) pre-filled with the boundary value. An empty intersection
  reads nothing.
\<close>

definition crop_data ::
  "'v cruise \<Rightarrow> int \<times> int \<Rightarrow> nat \<times> nat \<Rightarrow> selector option \<Rightarrow> 'v \<Rightarrow> crop_error + 'v list list list" where
  "crop_data c center patch_size freqs boundary_val =
     (let center_ping = fst center; center_range = snd center;
          height = fst patch_size; width = snd patch_size;
          fs = (case freqs of
                  None \<Rightarrow> frequencies c
                | Some (Scalar f) \<Rightarrow> [f]
                | Some (Labels l) \<Rightarrow> l);
          start_ping = center_ping - int height div 2;
          end_ping = center_ping + int height div 2;
          start_range = center_range - int width div 2;
          end_range = center_range + int width div 2;
          lo_ping = max 0 start_ping;
          hi_ping = min (num_pings c) end_ping;
          lo_range = max 0 start_range;
          hi_range = min (num_ranges c) end_range
      in if \<not> set fs \<subseteq> set (frequencies c) then Inl UnknownFrequency
         else if hi_ping \<le> lo_ping \<or> hi_range \<le> lo_range
         then Inr (replicate (length fs) (replicate height (replicate width boundary_val)))
         else
           (case get_sv_slice c (Some lo_ping) (Some hi_ping) (Some lo_range) (Some hi_range)
                   (Some (Labels fs)) of
              Inl e \<Rightarrow> Inl UnknownFrequency
            | Inr s \<Rightarrow>
                Inr (map (pad_plane boundary_val height width
                            (nat (lo_ping - start_ping)) (nat (lo_range - start_range)))
                       (da_values s))))"

text \<open>
  Modelled from the spec: a value read from a pixel (p, r, f) inside the survey and inside
  the requested window.
\<close>

definition survey_pixel :: "'v cruise \<Rightarrow> int \<times> int \<Rightarrow> nat \<times> nat \<Rightarrow> 'v \<Rightarrow> bool" where
  "survey_pixel c center patch_size x =
     (\<exists>f p r. f < length (frequency (data c)) \<and>
        p < sizes_ping_time (data c) \<and> r < sizes_range (data c) \<and>
        fst center - int (fst patch_size) div 2 \<le> int p \<and>
        int p < fst center + int (fst patch_size) div 2 \<and>
        snd center - int (snd patch_size) div 2 \<le> int r \<and>
        int r < snd center + int (snd patch_size) div 2 \<and>
        x = sv (data c) f p r)"

section \<open>Example surveys\<close>

definition abutting_box :: school_box where
  "abutting_box = \<lparr>startpingindex = 5, endpingindex = 10, upperdeptindex = 3,
                    lowerdeptindex = 8, category = 1\<rparr>"

definition inner_box :: school_box where
  "inner_box = \<lparr>startpingindex = 12, endpingindex = 15, upperdeptindex = 4,
                 lowerdeptindex = 9, category = 27\<rparr>"

definition example_data :: "int sv_dataset" where
  "example_data = \<lparr>frequency = [18000, 38000], sizes_ping_time = 100, sizes_range = 50,
                    sv = (\<lambda>f p r. int (f + p + r))\<rparr>"

definition example_annotations :: "int annotation_dataset" where
  "example_annotations = \<lparr>category_values = [27, - 1, 1], ann_sizes_ping_time = 100,
                           ann_sizes_range = 50, annotation = (\<lambda>k p r. 0)\<rparr>"

definition example_cruise :: "int cruise" where
  "example_cruise = \<lparr>data = example_data, annotations = Some example_annotations,
                      school_box_df = Some [abutting_box, inner_box]\<rparr>"

definition boxes_only_cruise :: "int cruise" where
  "boxes_only_cruise = \<lparr>data = example_data, annotations = None,
                         school_box_df = Some [abutting_box, inner_box]\<rparr>"

definition no_boxes_cruise :: "int cruise" where
  "no_boxes_cruise = \<lparr>data = example_data, annotations = Some example_annotations,
                       school_box_df = None\<rparr>"

definition bare_cruise :: "int cruise" where
  "bare_cruise = \<lparr>data = example_data, annotations = None, school_box_df = None\<rparr>"

section \<open>Properties of the school-box query\<close>

lemmas example_defs = example_cruise_def boxes_only_cruise_def no_boxes_cruise_def bare_cruise_def
  example_data_def example_annotations_def abutting_box_def inner_box_def

lemma loc_if_Some:
  "loc_if bound keep (Some rows) =
     Inr (Some (filter (\<lambda>b. case bound of None \<Rightarrow> True | Some v \<Rightarrow> keep v b) rows))"
  by (cases bound) (simp_all add: loc_if_def loc_def)

text \<open>With a table, the query is one filter of the table, or the error of \<open>categories\<close>.\<close>

lemma window_rows:
  assumes "school_box_df c = Some rows"
  shows "get_school_boxes c sp ep sr er cats =
     (case (case cats of None \<Rightarrow> map_sum id Labels (categories c) | Some s \<Rightarrow> Inr s) of
        Inl e \<Rightarrow> Inl e
      | Inr s \<Rightarrow> Inr (filter (\<lambda>b. category b \<in> set (case s of Scalar k \<Rightarrow> [k] | Labels ks \<Rightarrow> ks))
                       (filter (in_window sp ep sr er) rows)))"
proof -
  have w: "filter (\<lambda>b. case er of None \<Rightarrow> True | Some v \<Rightarrow> upperdeptindex b < v)
            (filter (\<lambda>b. case sr of None \<Rightarrow> True | Some v \<Rightarrow> lowerdeptindex b \<ge> v)
              (filter (\<lambda>b. case ep of None \<Rightarrow> True | Some v \<Rightarrow> startpingindex b < v)
                (filter (\<lambda>b. case sp of None \<Rightarrow> True | Some v \<Rightarrow> endpingindex b \<ge> v) rows)))
           = filter (in_window sp ep sr er) rows"
    by (auto simp: in_window_def intro: filter_cong)
  show ?thesis
    unfolding get_school_boxes_def assms loc_if_Some sum.case w
    by (simp add: loc_def Let_def split: sum.splits)
qed

text \<open>Without a table, every path through the query ends in an exception.\<close>

lemma no_table:
  assumes "school_box_df c = None"
  shows "get_school_boxes c sp ep sr er cats =
     (if sp = None \<and> ep = None \<and> sr = None \<and> er = None
      then (case (case cats of None \<Rightarrow> map_sum id Labels (categories c) | Some s \<Rightarrow> Inr s) of
              Inl e \<Rightarrow> Inl e | Inr s \<Rightarrow> Inl AttributeError)
      else Inl AttributeError)"
  unfolding get_school_boxes_def assms
  by (cases sp; cases ep; cases sr; cases er)
     (simp_all add: loc_if_def loc_def Let_def split: sum.splits)

text \<open>
  C1 (as amended). On a survey with a school-box table, a query with all four window
  bounds returns exactly the rows of the table, in table order, with
  \<open>endpingindex \<ge> start_ping\<close>, \<open>startpingindex < end_ping\<close>,
  \<open>lowerdeptindex \<ge> start_range\<close> and \<open>upperdeptindex < end_range\<close> whose category
  is among the selected categories (the given list, or the list of \<open>categories\<close> when
  none is given). The lower bounds are not strict: a box whose \<open>endpingindex\<close> equals
  \<open>start_ping\<close>, or whose \<open>lowerdeptindex\<close> equals \<open>start_range\<close>, is returned.
\<close>

theorem get_school_boxes_window:
  assumes "school_box_df c = Some rows"
  shows "get_school_boxes c (Some start_ping) (Some end_ping) (Some start_range) (Some end_range)
           (Some (Labels cats)) =
         Inr (filter (\<lambda>b. endpingindex b \<ge> start_ping \<and> startpingindex b < end_ping \<and>
                          lowerdeptindex b \<ge> start_range \<and> upperdeptindex b < end_range \<and>
                          category b \<in> set cats) rows) \<and>
         (categories c = Inr cats \<longrightarrow>
          get_school_boxes c (Some start_ping) (Some end_ping) (Some start_range) (Some end_range)
            None =
          Inr (filter (\<lambda>b. endpingindex b \<ge> start_ping \<and> startpingindex b < end_ping \<and>
                           lowerdeptindex b \<ge> start_range \<and> upperdeptindex b < end_range \<and>
                           category b \<in> set cats) rows))"
  by (simp add: window_rows [OF assms] in_window_def conj_commute conj_left_commute cong: conj_cong)

theorem get_school_boxes_window_witness:
  "school_box_df example_cruise = Some [abutting_box, inner_box] \<and>
   categories example_cruise = Inr [1, 27] \<and>
   get_school_boxes example_cruise (Some 10) (Some 20) (Some 0) (Some 20) (Some (Labels [1, 27])) =
     Inr [abutting_box, inner_box] \<and>
   get_school_boxes example_cruise (Some 10) (Some 20) (Some 0) (Some 20) None =
     Inr [abutting_box, inner_box]"
  using get_school_boxes_window [of example_cruise "[abutting_box, inner_box]" 10 20 0 20 "[1, 27]"]
  by (simp add: categories_def example_defs)

text \<open>
  The claim as stated fails on a box that ends on the first ping of the window: the code
  returns it, the strict predicate of the specification excludes it.
\<close>

theorem abutting_box_counterexample:
  "get_school_boxes example_cruise (Some 10) (Some 20) (Some 0) (Some 20) None =
     Inr [abutting_box, inner_box] \<and>
   endpingindex abutting_box = 10 \<and>
   \<not> spec_box_predicate 10 20 0 20 abutting_box \<and>
   filter (spec_box_predicate 10 20 0 20) [abutting_box, inner_box] = [inner_box] \<and>
   get_school_boxes example_cruise (Some 10) (Some 20) (Some 0) (Some 20) None \<noteq>
     Inr (filter (spec_box_predicate 10 20 0 20) [abutting_box, inner_box])"
  by (simp add: get_school_boxes_def loc_if_def loc_def categories_def spec_box_predicate_def
        example_defs)

text \<open>
  C2 (as amended). On a survey with a school-box table, a query with a list of categories
  raises no error, whether or not the categories are in the survey's catalog: it returns
  the rows of the window whose category is among those requested, and so the empty table
  for a category that no row of the table carries.
\<close>

theorem get_school_boxes_any_category:
  assumes "school_box_df c = Some rows"
  shows "get_school_boxes c sp ep sr er (Some (Labels ks)) =
           Inr (filter (\<lambda>b. category b \<in> set ks) (filter (in_window sp ep sr er) rows)) \<and>
         (k \<notin> category ` set rows \<longrightarrow> get_school_boxes c sp ep sr er (Some (Labels [k])) = Inr [])"
proof -
  have "filter (\<lambda>b. category b = k) (filter (in_window sp ep sr er) rows) = []"
    if "k \<notin> category ` set rows"
    using that by (auto simp: filter_empty_conv)
  then show ?thesis
    by (simp add: window_rows [OF assms])
qed

theorem get_school_boxes_any_category_witness:
  "school_box_df example_cruise = Some [abutting_box, inner_box] \<and>
   categories example_cruise = Inr [1, 27] \<and>
   get_school_boxes example_cruise None None None None (Some (Labels [99, 27])) = Inr [inner_box] \<and>
   get_school_boxes example_cruise None None None None (Some (Labels [99])) = Inr []"
  using get_school_boxes_any_category
          [of example_cruise "[abutting_box, inner_box]" None None None None "[99, 27]" 99]
        get_school_boxes_any_category
          [of example_cruise "[abutting_box, inner_box]" None None None None "[99]" 99]
  by (simp add: categories_def in_window_def example_defs)

text \<open>
  The claim as stated fails: category 99 is not among the categories of the example
  survey, and the query for it returns an empty table instead of an error.
\<close>

theorem unknown_category_counterexample:
  "categories example_cruise = Inr [1, 27] \<and>
   get_school_boxes example_cruise None None None None (Some (Labels [99])) = Inr [] \<and>
   get_school_boxes example_cruise None None None None (Some (Scalar 99)) = Inr []"
  by (simp add: get_school_boxes_def loc_if_def loc_def categories_def example_defs)

text \<open>
  C3 (what the code does). \<open>get_school_boxes\<close> has no guard for an absent school-box
  table of the kind \<open>categories\<close> has for absent annotations. On a survey whose table
  was not loaded it never returns a table, but the exception is not one that reports the
  table as unavailable: it is the \<open>AttributeError\<close> of the first access to \<open>None\<close>,
  and when no bound and no categories are given and the annotations are absent too, it is
  the \<open>FileNotFoundError\<close> of \<open>categories\<close>, the error for missing annotations, which
  the same call raises when the table is present.
\<close>

theorem get_school_boxes_without_table:
  assumes "\<not> school_boxes_available c"
  shows "get_school_boxes c sp ep sr er cats =
           (if sp = None \<and> ep = None \<and> sr = None \<and> er = None \<and> cats = None \<and>
               annotations c = None
            then Inl FileNotFoundError else Inl AttributeError) \<and>
         (annotations c = None \<longrightarrow> categories c = Inl FileNotFoundError)"
proof -
  from assms have "school_box_df c = None"
    by (simp add: school_boxes_available_def)
  then show ?thesis
    by (cases cats; cases "annotations c")
       (simp_all add: no_table categories_def)
qed

theorem get_school_boxes_without_table_witness:
  "\<not> school_boxes_available no_boxes_cruise \<and>
   \<not> school_boxes_available bare_cruise \<and>
   school_boxes_available boxes_only_cruise \<and>
   get_school_boxes no_boxes_cruise (Some 10) (Some 20) (Some 0) (Some 20) None =
     Inl AttributeError \<and>
   get_school_boxes no_boxes_cruise None None None None (Some (Labels [1])) =
     Inl AttributeError \<and>
   get_school_boxes bare_cruise None None None None None = Inl FileNotFoundError \<and>
   get_school_boxes boxes_only_cruise None None None None None = Inl FileNotFoundError \<and>
   categories bare_cruise = Inl FileNotFoundError"
  using get_school_boxes_without_table
          [of no_boxes_cruise "Some 10" "Some 20" "Some 0" "Some 20" None]
        get_school_boxes_without_table [of no_boxes_cruise None None None None "Some (Labels [1])"]
        get_school_boxes_without_table [of bare_cruise None None None None None]
  by (simp add: school_boxes_available_def get_school_boxes_def loc_if_def loc_def categories_def
        example_defs)

text \<open>
  C6. On a survey with a school-box table and a category \<open>k\<close> of its catalog, the query
  for \<open>[k]\<close> and the query with no categories both return a table; the first is the
  second filtered to the rows of category \<open>k\<close>, it holds exactly the rows of the window
  whose category is \<open>k\<close>, its rows and its labels are among those of the second, and it
  is no longer.
\<close>

theorem category_filter_subset:
  assumes "school_box_df c = Some rows" and "categories c = Inr cs" and "k \<in> set cs"
  shows "\<exists>all_rows k_rows.
           get_school_boxes c sp ep sr er None = Inr all_rows \<and>
           get_school_boxes c sp ep sr er (Some (Labels [k])) = Inr k_rows \<and>
           k_rows = filter (\<lambda>b. category b = k) all_rows \<and>
           k_rows = filter (\<lambda>b. category b = k) (filter (in_window sp ep sr er) rows) \<and>
           set k_rows \<subseteq> set all_rows \<and>
           set (map category k_rows) \<subseteq> set (map category all_rows) \<and>
           length k_rows \<le> length all_rows"
proof -
  let ?w = "filter (in_window sp ep sr er) rows"
  let ?all = "filter (\<lambda>b. category b \<in> set cs) ?w"
  let ?k = "filter (\<lambda>b. category b = k) ?w"
  have a: "get_school_boxes c sp ep sr er None = Inr ?all"
    by (simp add: window_rows [OF assms(1)] assms(2))
  have b: "get_school_boxes c sp ep sr er (Some (Labels [k])) = Inr ?k"
    by (simp add: window_rows [OF assms(1)])
  have e: "?k = filter (\<lambda>b. category b = k) ?all"
    using assms(3) by (auto intro: filter_cong)
  have s: "set ?k \<subseteq> set ?all"
    using assms(3) by auto
  have l: "length ?k \<le> length ?all"
    unfolding e by (rule length_filter_le)
  from a b e s l show ?thesis
    by (intro exI [of _ ?all] exI [of _ ?k]) auto
qed

theorem category_filter_subset_witness:
  "school_box_df example_cruise = Some [abutting_box, inner_box] \<and>
   categories example_cruise = Inr [1, 27] \<and>
   get_school_boxes example_cruise (Some 0) (Some 20) None None None = Inr [abutting_box, inner_box] \<and>
   get_school_boxes example_cruise (Some 0) (Some 20) None None (Some (Labels [27])) = Inr [inner_box]"
  using category_filter_subset [of example_cruise "[abutting_box, inner_box]" "[1, 27]" 27
          "Some 0" "Some 20" None None]
  by (simp add: categories_def get_school_boxes_def loc_if_def loc_def example_defs)

text \<open>
  C7. An integer \<open>k\<close> as the categories argument gives the result of the list \<open>[k]\<close>;
  no categories argument gives the result of the list that \<open>categories\<close> returns.
\<close>

theorem categories_argument_forms:
  "get_school_boxes c sp ep sr er (Some (Scalar k)) =
     get_school_boxes c sp ep sr er (Some (Labels [k])) \<and>
   (categories c = Inr cs \<longrightarrow>
      get_school_boxes c sp ep sr er None = get_school_boxes c sp ep sr er (Some (Labels cs)))"
  by (cases "school_box_df c") (simp_all add: no_table window_rows)

theorem categories_argument_forms_witness:
  "categories example_cruise = Inr [1, 27] \<and>
   get_school_boxes example_cruise (Some 11) None None None (Some (Scalar 27)) = Inr [inner_box] \<and>
   get_school_boxes example_cruise (Some 11) None None None (Some (Labels [27])) = Inr [inner_box] \<and>
   get_school_boxes example_cruise (Some 0) None None None None =
     get_school_boxes example_cruise (Some 0) None None None (Some (Labels [1, 27]))"
  using categories_argument_forms [of example_cruise "Some 11" None None None 27 "[1, 27]"]
        categories_argument_forms [of example_cruise "Some 0" None None None 27 "[1, 27]"]
  by (simp add: categories_def get_school_boxes_def loc_if_def loc_def example_defs)

text \<open>
  C8. On a survey with an annotation volume, \<open>categories\<close> returns a list that is
  sorted ascending, does not contain -1, holds exactly the categories of the annotation
  volume other than -1, and is as long as the category coordinate without its -1 entries.
\<close>

theorem categories_sorted_without_sentinel:
  assumes "annotations c = Some a"
  shows "\<exists>cs. categories c = Inr cs \<and> sorted cs \<and> - 1 \<notin> set cs \<and>
              set cs = set (category_values a) - {- 1} \<and>
              length cs = length (filter (\<lambda>cat. cat \<noteq> - 1) (category_values a))"
  using assms by (auto simp: categories_def)

theorem categories_sorted_without_sentinel_witness:
  "annotations example_cruise = Some example_annotations \<and>
   category_values example_annotations = [27, - 1, 1] \<and>
   categories example_cruise = Inr [1, 27]"
  using categories_sorted_without_sentinel [of example_cruise example_annotations]
  by (simp add: categories_def example_defs)

text \<open>
  C9. On a survey without annotation volume, \<open>categories\<close> raises
  \<open>FileNotFoundError\<close>, the school-box query with no categories argument raises, and
  when the school-box table is present it raises that \<open>FileNotFoundError\<close>.
\<close>

theorem default_categories_need_annotations:
  assumes "annotations c = None"
  shows "categories c = Inl FileNotFoundError \<and>
         (\<exists>e. get_school_boxes c sp ep sr er None = Inl e) \<and>
         (school_boxes_available c \<longrightarrow>
            get_school_boxes c sp ep sr er None = Inl FileNotFoundError)"
proof -
  have cat: "categories c = Inl FileNotFoundError"
    using assms by (simp add: categories_def)
  show ?thesis
  proof (cases "school_box_df c")
    case None
    then show ?thesis
      using cat by (simp add: no_table school_boxes_available_def)
  next
    case (Some rows)
    then show ?thesis
      using cat by (simp add: window_rows school_boxes_available_def)
  qed
qed

theorem default_categories_need_annotations_witness:
  "annotations boxes_only_cruise = None \<and> school_boxes_available boxes_only_cruise \<and>
   get_school_boxes boxes_only_cruise (Some 0) (Some 20) None None None = Inl FileNotFoundError \<and>
   get_school_boxes boxes_only_cruise (Some 0) (Some 20) None None (Some (Labels [1])) =
     Inr [abutting_box]"
  using default_categories_need_annotations [of boxes_only_cruise "Some 0" "Some 20" None None]
  by (simp add: school_boxes_available_def get_school_boxes_def loc_if_def loc_def example_defs)

section \<open>Properties of the slices and of the crop\<close>

lemma get_loc_mem:
  "l \<in> set coord \<Longrightarrow> \<exists>i. get_loc coord l = Some i \<and> i < length coord"
  by (induction coord) auto

lemma sel_labels_subset:
  "set ls \<subseteq> set coord \<Longrightarrow>
     \<exists>ps. sel_labels coord ls = Inr ps \<and> length ps = length ls \<and> (\<forall>p\<in>set ps. p < length coord)"
proof (induction ls)
  case Nil
  then show ?case by simp
next
  case (Cons l ls)
  then obtain ps where ps: "sel_labels coord ls = Inr ps" "length ps = length ls"
      "\<forall>p\<in>set ps. p < length coord"
    by auto
  from Cons.prems obtain i where i: "get_loc coord l = Some i" "i < length coord"
    using get_loc_mem [of l coord] by auto
  from ps i show ?case by simp
qed

lemma isel_slice_inside:
  assumes "0 \<le> lo" and "lo \<le> hi" and "hi \<le> int n"
  shows "isel_slice (Some lo) (Some hi) n = [nat lo ..< nat hi]"
  using assms by (simp add: isel_slice_def slice_bound_def min_def)

lemma length_pad_row:
  "pad_left + length row \<le> width \<Longrightarrow> length (pad_row bv width pad_left row) = width"
  by (simp add: pad_row_def)

lemma set_pad_row: "set (pad_row bv width pad_left row) \<subseteq> insert bv (set row)"
  by (auto simp: pad_row_def)

lemma length_pad_plane:
  "pad_top + length plane \<le> height \<Longrightarrow> length (pad_plane bv height width pad_top pad_left plane) = height"
  by (simp add: pad_plane_def)

lemma rows_pad_plane:
  assumes "\<forall>row\<in>set plane. pad_left + length row \<le> width"
    and "row \<in> set (pad_plane bv height width pad_top pad_left plane)"
  shows "length row = width \<and> set row \<subseteq> insert bv (\<Union>(set ` set plane))"
  using assms set_pad_row [of bv width pad_left]
  by (auto simp: pad_plane_def length_pad_row)


lemma get_sv_slice_labels:
  assumes "set fs \<subseteq> set (frequencies c)"
  shows "\<exists>ps. get_sv_slice c sp ep sr er (Some (Labels fs)) =
           Inr (read_array (sv (data c)) False ps
                  (isel_slice sp ep (sizes_ping_time (data c)))
                  (isel_slice (Some (case sr of None \<Rightarrow> 0 | Some s \<Rightarrow> s))
                     (Some (case er of None \<Rightarrow> num_ranges c + 1 | Some e \<Rightarrow> e))
                     (sizes_range (data c)))) \<and>
         length ps = length fs \<and> (\<forall>p\<in>set ps. p < length (frequency (data c)))"
proof -
  from assms obtain ps where "sel_labels (frequency (data c)) fs = Inr ps"
      "length ps = length fs" "\<forall>p\<in>set ps. p < length (frequency (data c))"
    using sel_labels_subset [of fs "frequency (data c)"] by (auto simp: frequencies_def)
  then show ?thesis
    by (intro exI [of _ ps]) (simp add: get_sv_slice_def sel_def is_scalar_def Let_def)
qed

lemma crop_data_shape_and_values:
  assumes "set fs \<subseteq> set (frequencies c)"
  shows "\<exists>out. crop_data c (cp, cr) (h, w) (Some (Labels fs)) bv = Inr out \<and>
           length out = length fs \<and>
           (\<forall>plane\<in>set out. length plane = h \<and>
              (\<forall>row\<in>set plane. length row = w \<and>
                 (\<forall>x\<in>set row. x = bv \<or> survey_pixel c (cp, cr) (h, w) x)))"
proof -
  define start_ping where "start_ping = cp - int h div 2"
  define end_ping where "end_ping = cp + int h div 2"
  define start_range where "start_range = cr - int w div 2"
  define end_range where "end_range = cr + int w div 2"
  define lo_ping where "lo_ping = max 0 start_ping"
  define hi_ping where "hi_ping = min (num_pings c) end_ping"
  define lo_range where "lo_range = max 0 start_range"
  define hi_range where "hi_range = min (num_ranges c) end_range"
  note bounds = start_ping_def end_ping_def start_range_def end_range_def
    lo_ping_def hi_ping_def lo_range_def hi_range_def
  show ?thesis
  proof (cases "hi_ping \<le> lo_ping \<or> hi_range \<le> lo_range")
    case True
    then have "crop_data c (cp, cr) (h, w) (Some (Labels fs)) bv =
        Inr (replicate (length fs) (replicate h (replicate w bv)))"
      using assms by (simp add: crop_data_def Let_def bounds)
    then show ?thesis by simp
  next
    case False
    then have lt: "lo_ping < hi_ping" "lo_range < hi_range" by auto
    have lo0: "0 \<le> lo_ping" "0 \<le> lo_range"
      by (simp_all add: lo_ping_def lo_range_def)
    have hin: "hi_ping \<le> int (sizes_ping_time (data c))" "hi_range \<le> int (sizes_range (data c))"
      by (simp_all add: hi_ping_def hi_range_def num_pings_def num_ranges_def)
    obtain ps where ps: "get_sv_slice c (Some lo_ping) (Some hi_ping) (Some lo_range) (Some hi_range)
          (Some (Labels fs)) =
        Inr (read_array (sv (data c)) False ps [nat lo_ping ..< nat hi_ping]
               [nat lo_range ..< nat hi_range])"
      and len: "length ps = length fs"
      and inb: "\<forall>p\<in>set ps. p < length (frequency (data c))"
      using get_sv_slice_labels [OF assms, of "Some lo_ping" "Some hi_ping" "Some lo_range" "Some hi_range"]
        isel_slice_inside [OF lo0(1) _ hin(1)] isel_slice_inside [OF lo0(2) _ hin(2)] lt
      by auto
    define pad_top where "pad_top = nat (lo_ping - start_ping)"
    define pad_left where "pad_left = nat (lo_range - start_range)"
    let ?planes = "map (\<lambda>f. map (\<lambda>p. map (\<lambda>r. sv (data c) f p r) [nat lo_range ..< nat hi_range])
                     [nat lo_ping ..< nat hi_ping]) ps"
    let ?out = "map (pad_plane bv h w pad_top pad_left) ?planes"
    have out: "crop_data c (cp, cr) (h, w) (Some (Labels fs)) bv = Inr ?out"
      using assms False ps
      by (simp add: crop_data_def Let_def bounds [symmetric] pad_top_def pad_left_def read_array_def)
    have "end_ping - start_ping \<le> int h"
      unfolding bounds by linarith
    with lt(1) have fit_p: "pad_top + (nat hi_ping - nat lo_ping) \<le> h"
      unfolding pad_top_def lo_ping_def hi_ping_def by linarith
    have "end_range - start_range \<le> int w"
      unfolding bounds by linarith
    with lt(2) have fit_r: "pad_left + (nat hi_range - nat lo_range) \<le> w"
      unfolding pad_left_def lo_range_def hi_range_def by linarith
    have plane_ok: "length pl = h \<and>
        (\<forall>row\<in>set pl. length row = w \<and> (\<forall>x\<in>set row. x = bv \<or> survey_pixel c (cp, cr) (h, w) x))"
      if "pl \<in> set ?out" for pl
    proof -
      from that obtain f where f: "f \<in> set ps"
        and pl: "pl = pad_plane bv h w pad_top pad_left
                  (map (\<lambda>p. map (\<lambda>r. sv (data c) f p r) [nat lo_range ..< nat hi_range])
                     [nat lo_ping ..< nat hi_ping])"
        by auto
      let ?read = "map (\<lambda>p. map (\<lambda>r. sv (data c) f p r) [nat lo_range ..< nat hi_range])
                     [nat lo_ping ..< nat hi_ping]"
      have l1: "length pl = h"
        unfolding pl using fit_p by (simp add: length_pad_plane)
      have rows: "\<forall>row\<in>set ?read. pad_left + length row \<le> w"
        using fit_r by auto
      have vals: "survey_pixel c (cp, cr) (h, w) x" if "x \<in> \<Union>(set ` set ?read)" for x
      proof -
        from that obtain p r where p: "nat lo_ping \<le> p" "p < nat hi_ping"
          and r: "nat lo_range \<le> r" "r < nat hi_range" and x: "x = sv (data c) f p r"
          by auto
        have "f < length (frequency (data c))" using f inb by auto
        moreover have "p < sizes_ping_time (data c)" using p hin by linarith
        moreover have "r < sizes_range (data c)" using r hin by linarith
        moreover have "start_ping \<le> int p" "int p < end_ping"
          using p lo0 unfolding lo_ping_def hi_ping_def by linarith+
        moreover have "start_range \<le> int r" "int r < end_range"
          using r lo0 unfolding lo_range_def hi_range_def by linarith+
        ultimately show ?thesis
          unfolding survey_pixel_def bounds using x by auto
      qed
      have "length row = w \<and> (\<forall>x\<in>set row. x = bv \<or> survey_pixel c (cp, cr) (h, w) x)"
        if "row \<in> set pl" for row
        using rows_pad_plane [OF rows that [unfolded pl]] vals by blast
      with l1 show ?thesis by blast
    qed
    show ?thesis
      unfolding out using len plane_ok by (intro exI [of _ ?out]) simp
  qed
qed

text \<open>A crop at the far corner of the example survey.\<close>

lemma crop_example:
  "crop_data example_cruise (99, 49) (4, 6) (Some (Labels [38000])) (- 100) =
     Inr [[[144, 145, 146, 147, - 100, - 100],
           [145, 146, 147, 148, - 100, - 100],
           [146, 147, 148, 149, - 100, - 100],
           [- 100, - 100, - 100, - 100, - 100, - 100]]]"
  by code_simp

text \<open>
  C4. For every center, every patch size and every selection \<open>fs\<close> of frequencies of the
  survey, \<open>crop_data\<close> returns an array with one plane per selected frequency, every
  plane of \<open>height\<close> rows and every row of \<open>width\<close> elements, and every element is the
  boundary value or a value read from a pixel inside the survey and inside the window.
  No selection stands for all frequencies of the survey, a single frequency for the list
  of it.
\<close>

theorem crop_data_shape:
  assumes "set fs \<subseteq> set (frequencies c)"
  shows "(\<exists>out. crop_data c (cp, cr) (h, w) (Some (Labels fs)) bv = Inr out \<and>
            length out = length fs \<and>
            (\<forall>plane\<in>set out. length plane = h \<and>
               (\<forall>row\<in>set plane. length row = w \<and>
                  (\<forall>x\<in>set row. x = bv \<or> survey_pixel c (cp, cr) (h, w) x)))) \<and>
         crop_data c (cp, cr) (h, w) None bv =
           crop_data c (cp, cr) (h, w) (Some (Labels (frequencies c))) bv \<and>
         crop_data c (cp, cr) (h, w) (Some (Scalar f)) bv =
           crop_data c (cp, cr) (h, w) (Some (Labels [f])) bv"
proof -
  have "crop_data c (cp, cr) (h, w) None bv =
      crop_data c (cp, cr) (h, w) (Some (Labels (frequencies c))) bv"
    by (simp add: crop_data_def)
  moreover have "crop_data c (cp, cr) (h, w) (Some (Scalar f)) bv =
      crop_data c (cp, cr) (h, w) (Some (Labels [f])) bv"
    by (simp add: crop_data_def)
  ultimately show ?thesis
    using crop_data_shape_and_values [OF assms, of cp cr h w bv] by blast
qed

theorem crop_data_shape_witness:
  "set [38000] \<subseteq> set (frequencies example_cruise) \<and>
   crop_data example_cruise (99, 49) (4, 6) (Some (Labels [38000])) (- 100) =
     Inr [[[144, 145, 146, 147, - 100, - 100],
           [145, 146, 147, 148, - 100, - 100],
           [146, 147, 148, 149, - 100, - 100],
           [- 100, - 100, - 100, - 100, - 100, - 100]]] \<and>
   crop_data example_cruise (99, 49) (4, 6) (Some (Scalar 38000)) (- 100) =
     crop_data example_cruise (99, 49) (4, 6) (Some (Labels [38000])) (- 100)"
  using crop_data_shape [of "[38000]" example_cruise 99 49 4 6 "- 100" 38000] crop_example
  by (simp add: frequencies_def example_defs)

text \<open>
  C5. A window that lies before ping 0, at or after ping \<open>num_pings\<close>, before range 0 or
  at or after range \<open>num_ranges\<close> is no error for \<open>crop_data\<close>: the result is the array
  of the requested shape with the boundary value everywhere.
\<close>

theorem crop_data_outside:
  assumes "cp + int h div 2 \<le> 0 \<or> num_pings c \<le> cp - int h div 2 \<or>
           cr + int w div 2 \<le> 0 \<or> num_ranges c \<le> cr - int w div 2"
  shows "crop_data c (cp, cr) (h, w) None bv =
           Inr (replicate (length (frequencies c)) (replicate h (replicate w bv))) \<and>
         (set fs \<subseteq> set (frequencies c) \<longrightarrow>
            crop_data c (cp, cr) (h, w) (Some (Labels fs)) bv =
              Inr (replicate (length fs) (replicate h (replicate w bv))))"
proof -
  have "min (num_pings c) (cp + int h div 2) \<le> max 0 (cp - int h div 2) \<or>
        min (num_ranges c) (cr + int w div 2) \<le> max 0 (cr - int w div 2)"
    using assms by (auto simp: num_pings_def num_ranges_def)
  then show ?thesis
    by (simp add: crop_data_def Let_def)
qed

theorem crop_data_outside_witness:
  "num_pings example_cruise \<le> 200 - int 4 div 2 \<and>
   crop_data example_cruise (200, 49) (4, 4) None (- 100) =
     Inr [[[- 100, - 100, - 100, - 100], [- 100, - 100, - 100, - 100],
           [- 100, - 100, - 100, - 100], [- 100, - 100, - 100, - 100]],
          [[- 100, - 100, - 100, - 100], [- 100, - 100, - 100, - 100],
           [- 100, - 100, - 100, - 100], [- 100, - 100, - 100, - 100]]]"
  using crop_data_outside [of 200 4 example_cruise 49 4 "- 100" "[]"]
  by (simp add: num_pings_def frequencies_def example_defs numeral_eq_Suc)

text \<open>
  C10. With no range bounds and no selection, on a survey whose annotation volume has
  the range extent of the backscatter volume, \<open>get_sv_slice\<close> (end bound
  \<open>num_ranges + 1\<close>) and \<open>get_annotation_slice\<close> (end bound \<open>num_ranges\<close>) both
  return, and both select the range positions \<open>0, ..., num_ranges - 1\<close>.
\<close>

theorem default_range_extent:
  assumes "annotations c = Some a" and "ann_sizes_range a = sizes_range (data c)"
  shows "\<exists>s t. get_sv_slice c sp ep None None None = Inr s \<and>
               get_annotation_slice c sp ep None None None = Inr t \<and>
               range_pos s = [0 ..< sizes_range (data c)] \<and>
               range_pos t = [0 ..< sizes_range (data c)] \<and>
               length (range_pos s) = nat (num_ranges c) \<and>
               length (range_pos t) = nat (num_ranges c)"
proof -
  let ?n = "sizes_range (data c)"
  have full: "isel_slice (Some 0) (Some (num_ranges c + 1)) ?n = [0 ..< ?n]"
    and upto: "isel_slice (Some 0) (Some (num_ranges c)) ?n = [0 ..< ?n]"
    by (simp_all add: isel_slice_def slice_bound_def num_ranges_def)
  obtain fs where fs: "sel_labels (frequency (data c)) (frequency (data c)) = Inr fs"
    using sel_labels_subset [of "frequency (data c)" "frequency (data c)"] by auto
  let ?cs = "sort (filter (\<lambda>cat. cat \<noteq> - 1) (category_values a))"
  have "set ?cs \<subseteq> set (category_values a)" by auto
  then obtain ks where ks: "sel_labels (category_values a) ?cs = Inr ks"
    using sel_labels_subset [of ?cs "category_values a"] by auto
  let ?s = "read_array (sv (data c)) False fs (isel_slice sp ep (sizes_ping_time (data c))) [0 ..< ?n]"
  let ?t = "read_array (annotation a) False ks (isel_slice sp ep (ann_sizes_ping_time a)) [0 ..< ?n]"
  have s: "get_sv_slice c sp ep None None None = Inr ?s"
    using fs full by (simp add: get_sv_slice_def sel_def is_scalar_def frequencies_def)
  have t: "get_annotation_slice c sp ep None None None = Inr ?t"
    using ks upto assms
    by (simp add: get_annotation_slice_def categories_def sel_def is_scalar_def)
  show ?thesis
    unfolding s t
    by (intro exI [of _ ?s] exI [of _ ?t]) (simp add: read_array_def num_ranges_def)
qed

theorem default_range_extent_witness:
  "annotations example_cruise = Some example_annotations \<and>
   ann_sizes_range example_annotations = sizes_range (data example_cruise) \<and>
   num_ranges example_cruise = 50 \<and>
   map_sum id range_pos (get_sv_slice example_cruise (Some 98) None None None None) = Inr [0 ..< 50] \<and>
   map_sum id range_pos (get_annotation_slice example_cruise (Some 98) None None None None) =
     Inr [0 ..< 50]"
  using default_range_extent [of example_cruise example_annotations "Some 98" None]
  by (auto simp add: num_ranges_def example_defs)

end
